theory Spec2Isabelle
  imports Complex_Main "HOL-Library.AList" "HOL-Library.Multiset"
begin

section \<open>Values, records and the host environment\<close>

text \<open>
  The dashboard component (\<^verbatim>\<open>UserDashboard\<close>) works on an array of flat JSON objects.
  A field value is \<^verbatim>\<open>string | number | boolean | null | undefined\<close>. Numbers are
  modelled as reals: rounding, \<^verbatim>\<open>NaN\<close> and the infinities of IEEE doubles are outside
  the model. Strings are lists of characters; of their content only ASCII letters, digits
  and the dash are ever inspected.

  Reading a property can also return a value that no record holds: \<open>JInherited k\<close> is the
  member \<open>k\<close> of \<^verbatim>\<open>Object.prototype\<close> (a function; for \<^verbatim>\<open>__proto__\<close> the prototype object).
\<close>

datatype jsval = JUndefined | JNull | JBool bool | JNum real | JStr string | JInherited string

text \<open>
  An object is the list of its own properties in creation order (for a parsed JSON
  object, the order of the text); it inherits from \<^verbatim>\<open>Object.prototype\<close>, whose members
  have the names below.
\<close>

type_synonym 'v jsobj = "(string \<times> 'v) list"

type_synonym DataPoint = "jsval jsobj"

definition ObjectPrototypeKeys :: "string list" where
  "ObjectPrototypeKeys =
     [''constructor'', ''hasOwnProperty'', ''isPrototypeOf'', ''propertyIsEnumerable'',
      ''toLocaleString'', ''toString'', ''valueOf'', ''__defineGetter__'',
      ''__defineSetter__'', ''__lookupGetter__'', ''__lookupSetter__'', ''__proto__'']"

text \<open>
  \<^verbatim>\<open>item[key]\<close>: the record's own property if it has one, else the member of
  \<^verbatim>\<open>Object.prototype\<close> of that name, else \<^verbatim>\<open>undefined\<close>.
\<close>

definition getProp :: "DataPoint \<Rightarrow> string \<Rightarrow> jsval" where
  "getProp item key =
     (case map_of item key of
        Some v \<Rightarrow> v
      | None \<Rightarrow> if key \<in> set ObjectPrototypeKeys then JInherited key else JUndefined)"

text \<open>
  \<^verbatim>\<open>obj[key] = v\<close> on an object made by \<^verbatim>\<open>{}\<close> and written only in this way: the
  property is created at the end of the object or, if it exists, updated in place. The
  name \<^verbatim>\<open>__proto__\<close> is the inherited setter, which ignores a number: nothing is stored.
\<close>

definition setProp :: "'v jsobj \<Rightarrow> string \<Rightarrow> 'v \<Rightarrow> 'v jsobj" where
  "setProp obj key v = (if key = ''__proto__'' then obj else AList.update key v obj)"

datatype FieldType = TString | TNumber | TDate | TBoolean

record FieldInfo =
  name :: string
  type :: FieldType
  values' :: "jsval list"

text \<open>
  What the code takes from its host: the local time zone, as the offset in milliseconds
  \<^verbatim>\<open>LocalTZA(t, isUTC)\<close> of the ECMAScript specification (it may vary with \<open>t\<close>, as
  with daylight saving); \<^verbatim>\<open>Date.parse\<close> (\<open>None\<close> is an invalid date); the conversion of
  a number to a string; and the string of a member of \<^verbatim>\<open>Object.prototype\<close>.
\<close>

record js_env =
  LocalTZA :: "int \<Rightarrow> bool \<Rightarrow> int"
  dateParse :: "string \<Rightarrow> int option"
  numToString :: "real \<Rightarrow> string"
  memberToString :: "string \<Rightarrow> string"

subsection \<open>Property enumeration order\<close>

text \<open>
  \<^verbatim>\<open>Object.keys\<close> and \<^verbatim>\<open>Object.entries\<close> list the properties whose name is an array
  index (a canonical decimal numeral below \<open>2^32 - 1\<close>) first, in ascending numeric order,
  and then the other properties in creation order.
\<close>

definition is_digit :: "char \<Rightarrow> bool" where
  "is_digit c = (c \<in> set ''0123456789'')"

definition digits_value :: "string \<Rightarrow> nat" where
  "digits_value s = foldl (\<lambda>n c. 10 * n + ((of_char c :: nat) - 48)) 0 s"

definition array_index :: "string \<Rightarrow> nat option" where
  "array_index s =
     (if s \<noteq> [] \<and> list_all is_digit s \<and> (s = ''0'' \<or> hd s \<noteq> CHR ''0'')
         \<and> digits_value s < 4294967295
      then Some (digits_value s) else None)"

definition index_entries :: "'v jsobj \<Rightarrow> (nat \<times> string \<times> 'v) list" where
  "index_entries obj =
     concat (map (\<lambda>(k, v). case array_index k of None \<Rightarrow> [] | Some n \<Rightarrow> [(n, k, v)]) obj)"

definition Object_entries :: "'v jsobj \<Rightarrow> (string \<times> 'v) list" where
  "Object_entries obj =
     map snd (sort_key fst (index_entries obj))
     @ filter (\<lambda>(k, v). array_index k = None) obj"

definition Object_keys :: "'v jsobj \<Rightarrow> string list" where
  "Object_keys obj = map fst (Object_entries obj)"

section \<open>Field inference\<close>

text \<open>\<^verbatim>\<open>[...new Set(values)]\<close>: the distinct values in order of first occurrence.\<close>

definition uniq :: "'a list \<Rightarrow> 'a list" where
  "uniq xs = foldl (\<lambda>seen x. if x \<in> set seen then seen else seen @ [x]) [] xs"

text \<open>The position of the first occurrence of a value in a list.\<close>

definition first_index :: "'a list \<Rightarrow> 'a \<Rightarrow> nat" where
  "first_index xs a = length (takeWhile (\<lambda>x. x \<noteq> a) xs)"

definition is_number :: "jsval \<Rightarrow> bool" where
  "is_number v = (case v of JNum _ \<Rightarrow> True | _ \<Rightarrow> False)"

definition is_boolean :: "jsval \<Rightarrow> bool" where
  "is_boolean v = (case v of JBool _ \<Rightarrow> True | _ \<Rightarrow> False)"

text \<open>
  \<^verbatim>\<open>toLowerCase\<close> on the ASCII letters. No other character lower-cases to one of
  the letters of \<^verbatim>\<open>"date"\<close>, the only text searched for afterwards.
\<close>

definition lower_char :: "char \<Rightarrow> char" where
  "lower_char c =
     (case map_of (zip ''ABCDEFGHIJKLMNOPQRSTUVWXYZ'' ''abcdefghijklmnopqrstuvwxyz'') c of
        None \<Rightarrow> c
      | Some l \<Rightarrow> l)"

definition toLowerCase :: "string \<Rightarrow> string" where
  "toLowerCase s = map lower_char s"

fun includes' :: "string \<Rightarrow> string \<Rightarrow> bool" where
  "includes' [] sub = (sub = [])"
| "includes' (c # cs) sub = (take (length sub) (c # cs) = sub \<or> includes' cs sub)"

text \<open>The regular expression \<^verbatim>\<open>/^\d{4}-\d{2}-\d{2}/\<close>.\<close>

definition matches_iso_prefix :: "string \<Rightarrow> bool" where
  "matches_iso_prefix s =
     (10 \<le> length s
      \<and> is_digit (s ! 0) \<and> is_digit (s ! 1) \<and> is_digit (s ! 2) \<and> is_digit (s ! 3)
      \<and> s ! 4 = CHR ''-''
      \<and> is_digit (s ! 5) \<and> is_digit (s ! 6)
      \<and> s ! 7 = CHR ''-''
      \<and> is_digit (s ! 8) \<and> is_digit (s ! 9))"

definition isValidDate :: "js_env \<Rightarrow> jsval \<Rightarrow> bool" where
  "isValidDate env v =
     (case v of
        JStr s \<Rightarrow> dateParse env s \<noteq> None \<and> matches_iso_prefix s
      | _ \<Rightarrow> False)"

definition column :: "DataPoint list \<Rightarrow> string \<Rightarrow> jsval list" where
  "column data key =
     filter (\<lambda>val. val \<noteq> JNull \<and> val \<noteq> JUndefined) (map (\<lambda>item. getProp item key) data)"

definition detectType :: "js_env \<Rightarrow> string \<Rightarrow> jsval list \<Rightarrow> FieldType" where
  "detectType env key vals =
     (if list_all is_number vals then TNumber
      else if list_all is_boolean vals then TBoolean
      else if includes' (toLowerCase key) ''date''
              \<or> (case vals of [] \<Rightarrow> False | v # _ \<Rightarrow> isValidDate env v) then TDate
      else TString)"

text \<open>The body of the \<^verbatim>\<open>forEach\<close> over the keys of the first record.\<close>

definition analyzeKey :: "js_env \<Rightarrow> DataPoint list \<Rightarrow> FieldInfo list \<Rightarrow> string \<Rightarrow> FieldInfo list" where
  "analyzeKey env data flds key =
     (let vals = column data key in
      if vals = [] then flds
      else flds @ [\<lparr>name = key, type = detectType env key vals,
                     values' = take 50 (uniq vals)\<rparr>])"

section \<open>Component state\<close>

text \<open>
  A line-chart point is \<^verbatim>\<open>{x, y}\<close>, a pie-chart segment \<^verbatim>\<open>{name, value, color}\<close>; the
  state holds what the \<^verbatim>\<open>useState\<close> hooks of the component hold (the list of data
  sets and the loading and error flags, which none of the functions below writes, are
  left out).
\<close>

record LinePoint =
  lx :: string
  ly :: real

record PieSegment =
  pname :: string
  pvalue :: real
  pcolor :: string

record ChartData =
  lineChart :: "LinePoint list"
  pieChart :: "PieSegment list"
  metrics :: "real jsobj"
  categories :: "string list"

record State =
  selectedDataSet :: string
  selectedDateRange :: string
  selectedMetrics :: "string list"
  selectedDimensions :: "string list"
  rawData :: "DataPoint list"
  filteredData :: "DataPoint list"
  chartData :: ChartData
  availableFields :: "FieldInfo list"

definition emptyChartData :: ChartData where
  "emptyChartData = \<lparr>lineChart = [], pieChart = [], metrics = [], categories = []\<rparr>"

definition numericFields :: "FieldInfo list \<Rightarrow> FieldInfo list" where
  "numericFields flds = filter (\<lambda>f. type f = TNumber) flds"

definition stringFields :: "FieldInfo list \<Rightarrow> FieldInfo list" where
  "stringFields flds =
     filter (\<lambda>f. type f = TString \<and> length (values' f) < 20 \<and> length (values' f) > 1) flds"

definition dateFields :: "FieldInfo list \<Rightarrow> FieldInfo list" where
  "dateFields flds = filter (\<lambda>f. type f = TDate) flds"

definition analyzeDataStructure :: "js_env \<Rightarrow> DataPoint list \<Rightarrow> State \<Rightarrow> State" where
  "analyzeDataStructure env data st =
     (case data of
        [] \<Rightarrow> st\<lparr>availableFields := []\<rparr>
      | sampleItem # _ \<Rightarrow>
          let flds = foldl (analyzeKey env data) [] (Object_keys sampleItem);
              newNumericFields = numericFields flds;
              newStringFields = stringFields flds
          in st\<lparr>availableFields := flds,
                selectedMetrics :=
                  (case newNumericFields of [] \<Rightarrow> [] | f # _ \<Rightarrow> [name f]),
                selectedDimensions :=
                  (case newStringFields of [] \<Rightarrow> [] | f # _ \<Rightarrow> [name f]),
                selectedDateRange := ''''\<rparr>)"

definition handleDataSetChange :: "string \<Rightarrow> State \<Rightarrow> State" where
  "handleDataSetChange dataSetId st =
     st\<lparr>selectedDataSet := dataSetId,
        selectedDateRange := '''',
        selectedMetrics := [],
        selectedDimensions := [],
        rawData := [],
        filteredData := [],
        chartData := emptyChartData\<rparr>"

section \<open>Dates\<close>

text \<open>
  A \<^verbatim>\<open>Date\<close> is its time value, the milliseconds since the epoch; an invalid date
  (time value \<^verbatim>\<open>NaN\<close>) is \<open>None\<close>. The calendar follows the day and year arithmetic of
  the ECMAScript specification (section 21.4.1), and so do local time and its inverse.
\<close>

definition msPerDay :: int where
  "msPerDay = 86400000"

definition Day :: "int \<Rightarrow> int" where
  "Day t = t div msPerDay"

definition TimeWithinDay :: "int \<Rightarrow> int" where
  "TimeWithinDay t = t mod msPerDay"

definition DaysInYear :: "int \<Rightarrow> int" where
  "DaysInYear y =
     (if y mod 4 \<noteq> 0 then 365 else if y mod 100 \<noteq> 0 then 366
      else if y mod 400 \<noteq> 0 then 365 else 366)"

definition DayFromYear :: "int \<Rightarrow> int" where
  "DayFromYear y =
     365 * (y - 1970) + (y - 1969) div 4 - (y - 1901) div 100 + (y - 1601) div 400"

text \<open>
  The year of a day number: the largest \<open>y\<close> with \<open>DayFromYear y \<le> d\<close>, found from the
  mean year length (146097 days in 400 years) and one correction step.
\<close>

definition YearFromDay :: "int \<Rightarrow> int" where
  "YearFromDay d =
     (let y = 1970 + (400 * d) div 146097 in
      if d < DayFromYear y then y - 1
      else if DayFromYear (y + 1) \<le> d then y + 1
      else y)"

definition YearFromTime :: "int \<Rightarrow> int" where
  "YearFromTime t = YearFromDay (Day t)"

definition DayWithinYear :: "int \<Rightarrow> int" where
  "DayWithinYear t = Day t - DayFromYear (YearFromTime t)"

text \<open>The day within the year on which month \<open>m\<close> (0 to 11) starts.\<close>

definition MonthStart :: "int \<Rightarrow> int \<Rightarrow> int" where
  "MonthStart y m =
     [0, 31, 59, 90, 120, 151, 181, 212, 243, 273, 304, 334] ! nat m
     + (if 2 \<le> m \<and> DaysInYear y = 366 then 1 else 0)"

definition MonthFromTime :: "int \<Rightarrow> int" where
  "MonthFromTime t =
     (let y = YearFromTime t; d = DayWithinYear t in
      if d < MonthStart y 1 then 0 else if d < MonthStart y 2 then 1
      else if d < MonthStart y 3 then 2 else if d < MonthStart y 4 then 3
      else if d < MonthStart y 5 then 4 else if d < MonthStart y 6 then 5
      else if d < MonthStart y 7 then 6 else if d < MonthStart y 8 then 7
      else if d < MonthStart y 9 then 8 else if d < MonthStart y 10 then 9
      else if d < MonthStart y 11 then 10 else 11)"

definition DateFromTime :: "int \<Rightarrow> int" where
  "DateFromTime t = DayWithinYear t - MonthStart (YearFromTime t) (MonthFromTime t) + 1"

definition MakeDay :: "int \<Rightarrow> int \<Rightarrow> int \<Rightarrow> int" where
  "MakeDay year month date =
     (let ym = year + month div 12; mn = month mod 12
      in DayFromYear ym + MonthStart ym mn + date - 1)"

definition MakeDate :: "int \<Rightarrow> int \<Rightarrow> int" where
  "MakeDate day time = day * msPerDay + time"

definition LocalTime :: "js_env \<Rightarrow> int \<Rightarrow> int" where
  "LocalTime env t = t + LocalTZA env t True"

definition UTC :: "js_env \<Rightarrow> int \<Rightarrow> int" where
  "UTC env t = t - LocalTZA env t False"

definition getDate :: "js_env \<Rightarrow> int \<Rightarrow> int" where
  "getDate env t = DateFromTime (LocalTime env t)"

definition getFullYear :: "js_env \<Rightarrow> int \<Rightarrow> int" where
  "getFullYear env t = YearFromTime (LocalTime env t)"

definition setDate :: "js_env \<Rightarrow> int \<Rightarrow> int \<Rightarrow> int" where
  "setDate env t dt =
     (let lt = LocalTime env t
      in UTC env (MakeDate (MakeDay (YearFromTime lt) (MonthFromTime lt) dt) (TimeWithinDay lt)))"

definition setFullYear :: "js_env \<Rightarrow> int \<Rightarrow> int \<Rightarrow> int" where
  "setFullYear env t y =
     (let lt = LocalTime env t
      in UTC env (MakeDate (MakeDay y (MonthFromTime lt) (DateFromTime lt)) (TimeWithinDay lt)))"

text \<open>
  \<^verbatim>\<open>toLocaleDateString("en-US", {month: "short", year: "2-digit"})\<close>: the short month
  name and the last two digits of the year, in local time.
\<close>

definition monthShort :: "string list" where
  "monthShort = [''Jan'', ''Feb'', ''Mar'', ''Apr'', ''May'', ''Jun'',
                 ''Jul'', ''Aug'', ''Sep'', ''Oct'', ''Nov'', ''Dec'']"

definition twoDigits :: "int \<Rightarrow> string" where
  "twoDigits n = [''0123456789'' ! nat (n mod 100 div 10), ''0123456789'' ! nat (n mod 10)]"

definition toLocaleDateString :: "js_env \<Rightarrow> int option \<Rightarrow> string" where
  "toLocaleDateString env d =
     (case d of
        None \<Rightarrow> ''Invalid Date''
      | Some t \<Rightarrow>
          monthShort ! nat (MonthFromTime (LocalTime env t)) @ '' ''
          @ twoDigits (YearFromTime (LocalTime env t)))"

section \<open>Conversions\<close>

text \<open>\<^verbatim>\<open>String(v)\<close>, the truth value of \<^verbatim>\<open>v\<close>, and \<^verbatim>\<open>typeof v === "number" ? v : 0\<close>.\<close>

definition toString :: "js_env \<Rightarrow> jsval \<Rightarrow> string" where
  "toString env v =
     (case v of
        JUndefined \<Rightarrow> ''undefined''
      | JNull \<Rightarrow> ''null''
      | JBool b \<Rightarrow> (if b then ''true'' else ''false'')
      | JNum r \<Rightarrow> numToString env r
      | JStr s \<Rightarrow> s
      | JInherited k \<Rightarrow> memberToString env k)"

definition truthy :: "jsval \<Rightarrow> bool" where
  "truthy v =
     (case v of
        JUndefined \<Rightarrow> False
      | JNull \<Rightarrow> False
      | JBool b \<Rightarrow> b
      | JNum r \<Rightarrow> r \<noteq> 0
      | JStr s \<Rightarrow> s \<noteq> []
      | JInherited k \<Rightarrow> True)"

definition numberOrZero :: "jsval \<Rightarrow> real" where
  "numberOrZero v = (case v of JNum r \<Rightarrow> r | _ \<Rightarrow> 0)"

section \<open>Sorting\<close>

text \<open>
  \<^verbatim>\<open>Array.prototype.sort\<close> with a comparison function is stable; for a consistent
  comparison function every stable sort returns the same array, here the one of
  insertion sort. An element moves behind another only when the comparison is positive.
  For an inconsistent comparison function the order is left to the engine; the properties
  below speak of the order only where the comparison function is consistent.
\<close>

fun insert_by :: "('a \<Rightarrow> 'a \<Rightarrow> real) \<Rightarrow> 'a \<Rightarrow> 'a list \<Rightarrow> 'a list" where
  "insert_by cmp a [] = [a]"
| "insert_by cmp a (b # bs) = (if cmp a b \<le> 0 then a # b # bs else b # insert_by cmp a bs)"

definition Array_sort :: "('a \<Rightarrow> 'a \<Rightarrow> real) \<Rightarrow> 'a list \<Rightarrow> 'a list" where
  "Array_sort cmp xs = foldr (insert_by cmp) xs []"

section \<open>The filter engine\<close>

text \<open>
  \<^verbatim>\<open>applyFilters\<close> reads the clock twice (\<^verbatim>\<open>now\<close>, then the initial \<^verbatim>\<open>startDate\<close>); the
  two readings are the parameters \<open>now\<close> and \<open>start\<close>. The \<^verbatim>\<open>switch\<close> has no default
  branch: any other token leaves \<^verbatim>\<open>startDate\<close> as it was read.
\<close>

definition startDateOf :: "js_env \<Rightarrow> string \<Rightarrow> int \<Rightarrow> int \<Rightarrow> int" where
  "startDateOf env token now start =
     (if token = ''last-7-days'' then setDate env start (getDate env now - 7)
      else if token = ''last-30-days'' then setDate env start (getDate env now - 30)
      else if token = ''last-90-days'' then setDate env start (getDate env now - 90)
      else if token = ''last-year'' then setFullYear env start (getFullYear env now - 1)
      else start)"

definition inDateRange :: "js_env \<Rightarrow> string \<Rightarrow> int \<Rightarrow> int \<Rightarrow> DataPoint \<Rightarrow> bool" where
  "inDateRange env dateField startDate now item =
     (case dateParse env (toString env (getProp item dateField)) of
        None \<Rightarrow> False
      | Some itemDate \<Rightarrow> startDate \<le> itemDate \<and> itemDate \<le> now)"

definition filterRecords ::
  "js_env \<Rightarrow> int \<Rightarrow> int \<Rightarrow> string \<Rightarrow> FieldInfo list \<Rightarrow> DataPoint list \<Rightarrow> DataPoint list" where
  "filterRecords env now start token dfs raw =
     (if token \<noteq> [] \<and> dfs \<noteq> [] then
        let dateField = name (hd dfs);
            startDate = startDateOf env token now start
        in filter (inDateRange env dateField startDate now) raw
      else raw)"

section \<open>The aggregator\<close>

definition COLORS :: "string list" where
  "COLORS = [''#ef4444'', ''#10b981'', ''#8b5cf6'', ''#f59e0b'',
             ''#06b6d4'', ''#ec4899'', ''#84cc16'', ''#f97316'']"

text \<open>
  Reading a number-valued own property. The accumulators below read a key only after
  storing a number under it, except for \<^verbatim>\<open>__proto__\<close>, where the write that follows
  stores nothing whatever was read.
\<close>

definition getNum :: "real jsobj \<Rightarrow> string \<Rightarrow> real" where
  "getNum acc k = (case map_of acc k of None \<Rightarrow> 0 | Some r \<Rightarrow> r)"

text \<open>
  \<^verbatim>\<open>if (typeof acc[k] !== "number") acc[k] = 0; acc[k] += m\<close>. The accumulator holds
  numbers only, and no inherited member is a number: the test fails exactly for the keys
  the accumulator holds.
\<close>

definition addTo :: "real jsobj \<Rightarrow> string \<Rightarrow> real \<Rightarrow> real jsobj" where
  "addTo acc k m =
     (let acc0 = (if map_of acc k = None then setProp acc k 0 else acc)
      in setProp acc0 k (getNum acc0 k + m))"

definition metricTotals :: "string list \<Rightarrow> DataPoint list \<Rightarrow> real jsobj" where
  "metricTotals ms data =
     foldl (\<lambda>acc metric.
              setProp acc metric
                (foldl (\<lambda>sum val. sum + val) 0
                   (map (\<lambda>item. numberOrZero (getProp item metric)) data)))
       [] ms"

definition groupedByDate :: "js_env \<Rightarrow> string \<Rightarrow> string \<Rightarrow> DataPoint list \<Rightarrow> real jsobj" where
  "groupedByDate env dateField primaryMetric data =
     foldl (\<lambda>acc item.
              let dateValue = getProp item dateField in
              if \<not> truthy dateValue then acc
              else addTo acc
                     (toLocaleDateString env (dateParse env (toString env dateValue)))
                     (numberOrZero (getProp item primaryMetric)))
       [] data"

text \<open>
  The comparison of two bucket labels: the difference of their time values; a
  \<^verbatim>\<open>NaN\<close> result counts as zero in \<^verbatim>\<open>sort\<close>.
\<close>

definition compareDates :: "js_env \<Rightarrow> string \<times> real \<Rightarrow> string \<times> real \<Rightarrow> real" where
  "compareDates env a b =
     (case (dateParse env (fst a), dateParse env (fst b)) of
        (Some ta, Some tb) \<Rightarrow> real_of_int (ta - tb)
      | _ \<Rightarrow> 0)"

definition sortedEntries :: "js_env \<Rightarrow> string \<Rightarrow> string \<Rightarrow> DataPoint list \<Rightarrow> (string \<times> real) list" where
  "sortedEntries env dateField primaryMetric data =
     Array_sort (compareDates env) (Object_entries (groupedByDate env dateField primaryMetric data))"

definition groupedByDimension :: "js_env \<Rightarrow> string \<Rightarrow> string \<Rightarrow> DataPoint list \<Rightarrow> real jsobj" where
  "groupedByDimension env primaryDimension primaryMetric data =
     foldl (\<lambda>acc item.
              let dimensionValue = getProp item primaryDimension;
                  dimension = toString env (if truthy dimensionValue then dimensionValue
                                            else JStr ''Unknown'')
              in addTo acc dimension (numberOrZero (getProp item primaryMetric)))
       [] data"

definition pieSegments :: "js_env \<Rightarrow> string \<Rightarrow> string \<Rightarrow> DataPoint list \<Rightarrow> PieSegment list" where
  "pieSegments env primaryDimension primaryMetric data =
     map (\<lambda>(index, (n, v)).
            \<lparr>pname = n, pvalue = v, pcolor = COLORS ! (index mod length COLORS)\<rparr>)
       (enumerate 0
          (Array_sort (\<lambda>a b. snd b - snd a)
             (Object_entries (groupedByDimension env primaryDimension primaryMetric data))))"

text \<open>
  \<^verbatim>\<open>generateChartData\<close> builds \<^verbatim>\<open>newChartData\<close> from the records and from the three
  values its closure holds (\<^verbatim>\<open>selectedMetrics\<close>, \<^verbatim>\<open>selectedDimensions\<close>, \<^verbatim>\<open>dateFields\<close>), and
  stores it with \<^verbatim>\<open>setChartData\<close>.
\<close>

definition newChartData ::
  "js_env \<Rightarrow> string list \<Rightarrow> string list \<Rightarrow> FieldInfo list \<Rightarrow> DataPoint list \<Rightarrow> ChartData" where
  "newChartData env sm sd dfs data =
     (if data = [] \<or> sm = [] then emptyChartData
      else
        let c0 = emptyChartData\<lparr>metrics := metricTotals sm data\<rparr>;
            dateField = (case dfs of [] \<Rightarrow> None | f # _ \<Rightarrow> Some (name f));
            primaryMetric = hd sm;
            c1 = (case dateField of
                    None \<Rightarrow> c0
                  | Some df \<Rightarrow>
                      if df \<noteq> [] \<and> primaryMetric \<noteq> [] then
                        let es = sortedEntries env df primaryMetric data
                        in c0\<lparr>lineChart := map (\<lambda>(d, v). \<lparr>lx = d, ly = v\<rparr>) es,
                              categories := map fst es\<rparr>
                      else c0);
            primaryDimension = (case sd of [] \<Rightarrow> None | d # _ \<Rightarrow> Some d)
        in case primaryDimension of
             None \<Rightarrow> c1
           | Some pd \<Rightarrow>
               if pd \<noteq> [] \<and> primaryMetric \<noteq> [] then
                 c1\<lparr>pieChart := pieSegments env pd primaryMetric data\<rparr>
               else c1)"

definition generateChartData :: "js_env \<Rightarrow> DataPoint list \<Rightarrow> State \<Rightarrow> State" where
  "generateChartData env data st =
     st\<lparr>chartData := newChartData env (selectedMetrics st) (selectedDimensions st)
                        (dateFields (availableFields st)) data\<rparr>"

text \<open>
  \<^verbatim>\<open>applyFilters\<close> reads \<^verbatim>\<open>rawData\<close>, \<^verbatim>\<open>selectedDateRange\<close> and \<^verbatim>\<open>dateFields\<close> through its
  closure and calls the \<^verbatim>\<open>generateChartData\<close> of the render in which that closure was
  made: \<open>st\<close> is the state of that render, and the result records the two writes
  (\<^verbatim>\<open>setFilteredData\<close>, \<^verbatim>\<open>setChartData\<close>).
\<close>

definition applyFilters :: "js_env \<Rightarrow> int \<Rightarrow> int \<Rightarrow> State \<Rightarrow> State" where
  "applyFilters env now start st =
     (let filtered = filterRecords env now start (selectedDateRange st)
                       (dateFields (availableFields st)) (rawData st)
      in generateChartData env filtered (st\<lparr>filteredData := filtered\<rparr>))"

section \<open>Notions used to state the properties\<close>

text \<open>A field name contains the word "date", in any mix of upper and lower case.\<close>

definition name_contains_date :: "string \<Rightarrow> bool" where
  "name_contains_date key =
     (\<exists>pre post d a t e. key = pre @ [d, a, t, e] @ post
        \<and> d \<in> {CHR ''d'', CHR ''D''} \<and> a \<in> {CHR ''a'', CHR ''A''}
        \<and> t \<in> {CHR ''t'', CHR ''T''} \<and> e \<in> {CHR ''e'', CHR ''E''})"

text \<open>A string starts with four digits, a dash, two digits, a dash and two digits.\<close>

definition iso_date_prefix :: "string \<Rightarrow> bool" where
  "iso_date_prefix s =
     (\<exists>y m d rest. s = y @ ''-'' @ m @ ''-'' @ d @ rest
        \<and> length y = 4 \<and> length m = 2 \<and> length d = 2
        \<and> (\<forall>c\<in>set (y @ m @ d). c \<in> set ''0123456789''))"

text \<open>
  The value a record holds for a field, as the specification reads a record (a mapping
  from field names to scalar values): a record without the field holds \<^verbatim>\<open>undefined\<close>.
\<close>

definition ownProp :: "DataPoint \<Rightarrow> string \<Rightarrow> jsval" where
  "ownProp item key = (case map_of item key of None \<Rightarrow> JUndefined | Some v \<Rightarrow> v)"

definition own_column :: "DataPoint list \<Rightarrow> string \<Rightarrow> jsval list" where
  "own_column data key =
     filter (\<lambda>val. val \<noteq> JNull \<and> val \<noteq> JUndefined) (map (\<lambda>item. ownProp item key) data)"

text \<open>
  The kind of a field as the specification words it: number when all values are
  numbers; else boolean when all are booleans; else date when the name contains "date" or
  the first value is a string with an ISO date prefix that parses; else string.
\<close>

definition spec_kind :: "js_env \<Rightarrow> string \<Rightarrow> jsval list \<Rightarrow> FieldType" where
  "spec_kind env key vals =
     (if \<forall>v\<in>set vals. \<exists>r. v = JNum r then TNumber
      else if \<forall>v\<in>set vals. \<exists>b. v = JBool b then TBoolean
      else if name_contains_date key
              \<or> (\<exists>s rest. vals = JStr s # rest \<and> iso_date_prefix s \<and> dateParse env s \<noteq> None)
           then TDate
      else TString)"

section \<open>A sample host and sample inputs\<close>

text \<open>
  One host on which the model runs on concrete inputs: UTC; \<^verbatim>\<open>Date.parse\<close> accepts the
  date-only ISO form \<^verbatim>\<open>YYYY-MM-DD\<close> (midnight UTC) and a short month name followed by a
  two-digit day of the month, which it reads as that day of the year 2001; natural numbers
  print in decimal (no other number occurs in the sample inputs); a member of
  \<^verbatim>\<open>Object.prototype\<close> prints as native code.
\<close>

definition parseIsoDate :: "string \<Rightarrow> int option" where
  "parseIsoDate s =
     (if length s = 10 \<and> matches_iso_prefix s then
        let y = int (digits_value (take 4 s));
            m = int (digits_value (take 2 (drop 5 s)));
            d = int (digits_value (take 2 (drop 8 s)));
            t = MakeDate (MakeDay y (m - 1) d) 0
        in if 1 \<le> m \<and> m \<le> 12 \<and> MonthFromTime t = m - 1 \<and> DateFromTime t = d
           then Some t else None
      else None)"

definition parseMonthDay :: "string \<Rightarrow> int option" where
  "parseMonthDay s =
     (if length s = 6 \<and> take 3 s \<in> set monthShort \<and> s ! 3 = CHR '' ''
         \<and> is_digit (s ! 4) \<and> is_digit (s ! 5) then
        let m = int (first_index monthShort (take 3 s));
            d = int (digits_value (drop 4 s));
            t = MakeDate (MakeDay 2001 m d) 0
        in if MonthFromTime t = m \<and> DateFromTime t = d then Some t else None
      else None)"

fun digitsOfNat :: "nat \<Rightarrow> string" where
  "digitsOfNat n =
     (if n < 10 then [''0123456789'' ! n]
      else digitsOfNat (n div 10) @ [''0123456789'' ! (n mod 10)])"

definition sampleHost :: js_env where
  "sampleHost =
     \<lparr>LocalTZA = (\<lambda>t isUTC. 0),
      dateParse = (\<lambda>s. case parseIsoDate s of Some t \<Rightarrow> Some t | None \<Rightarrow> parseMonthDay s),
      numToString = (\<lambda>r. if 0 \<le> r \<and> r = of_int \<lfloor>r\<rfloor> then digitsOfNat (nat \<lfloor>r\<rfloor>) else ''?''),
      memberToString = (\<lambda>k. if k = ''__proto__'' then ''[object Object]''
                            else ''function () { [native code] }'')\<rparr>"

text \<open>The state of the component when it mounts (the initial values of its hooks).\<close>

definition initialState :: State where
  "initialState =
     \<lparr>selectedDataSet = '''', selectedDateRange = '''', selectedMetrics = [],
      selectedDimensions = [], rawData = [], filteredData = [],
      chartData = emptyChartData, availableFields = []\<rparr>"

definition sampleOrders :: "DataPoint list" where
  "sampleOrders =
     [[(''id'', JNum 1), (''orderDate'', JStr ''soon''), (''when'', JStr ''2024-01-15''),
       (''cat'', JStr ''A''), (''ok'', JBool True), (''note'', JNull)],
      [(''id'', JNum 2), (''extra'', JNum 5), (''when'', JStr ''2024-02-03''),
       (''cat'', JStr ''B''), (''ok'', JBool False)],
      [(''id'', JNum 2), (''when'', JStr ''2024-01-15''), (''cat'', JStr ''A'')]]"

subsection \<open>Notions for the aggregator\<close>



text \<open>The sum of a metric over the records that satisfy a condition.\<close>

definition metric_sum :: "string \<Rightarrow> (DataPoint \<Rightarrow> bool) \<Rightarrow> DataPoint list \<Rightarrow> real" where
  "metric_sum metric P data =
     sum_list (map (\<lambda>item. case getProp item metric of JNum r \<Rightarrow> r | _ \<Rightarrow> 0) (filter P data))"














section \<open>Field inference: properties\<close>

lemma lower_d: "lower_char c = CHR ''d'' \<longleftrightarrow> c \<in> {CHR ''d'', CHR ''D''}"
  by (auto simp: lower_char_def split: if_splits)
lemma lower_a: "lower_char c = CHR ''a'' \<longleftrightarrow> c \<in> {CHR ''a'', CHR ''A''}"
  by (auto simp: lower_char_def split: if_splits)
lemma lower_t: "lower_char c = CHR ''t'' \<longleftrightarrow> c \<in> {CHR ''t'', CHR ''T''}"
  by (auto simp: lower_char_def split: if_splits)
lemma lower_e: "lower_char c = CHR ''e'' \<longleftrightarrow> c \<in> {CHR ''e'', CHR ''E''}"
  by (auto simp: lower_char_def split: if_splits)

lemma includes_iff: "includes' s sub \<longleftrightarrow> (\<exists>pre post. s = pre @ sub @ post)"
proof (induction s)
  case Nil
  then show ?case by auto
next
  case (Cons c cs)
  have p: "take (length sub) (c # cs) = sub \<longleftrightarrow> (\<exists>post. c # cs = sub @ post)"
  proof
    assume t: "take (length sub) (c # cs) = sub"
    have "c # cs = take (length sub) (c # cs) @ drop (length sub) (c # cs)"
      by (simp only: append_take_drop_id)
    then have "c # cs = sub @ drop (length sub) (c # cs)" by (simp only: t)
    then show "\<exists>post. c # cs = sub @ post" ..
  next
    assume "\<exists>post. c # cs = sub @ post"
    then obtain post where e: "c # cs = sub @ post" ..
    show "take (length sub) (c # cs) = sub" unfolding e by simp
  qed
  have "(\<exists>pre post. c # cs = pre @ sub @ post)
        \<longleftrightarrow> (\<exists>post. c # cs = sub @ post) \<or> (\<exists>pre post. cs = pre @ sub @ post)"
  proof
    assume "\<exists>pre post. c # cs = pre @ sub @ post"
    then obtain pre post where e: "c # cs = pre @ sub @ post" by blast
    show "(\<exists>post. c # cs = sub @ post) \<or> (\<exists>pre post. cs = pre @ sub @ post)"
    proof (cases pre)
      case Nil
      then show ?thesis using e by auto
    next
      case (Cons p ps)
      then have "cs = ps @ sub @ post" using e by simp
      then show ?thesis by blast
    qed
  next
    assume "(\<exists>post. c # cs = sub @ post) \<or> (\<exists>pre post. cs = pre @ sub @ post)"
    then show "\<exists>pre post. c # cs = pre @ sub @ post"
    proof
      assume "\<exists>post. c # cs = sub @ post"
      then obtain post where "c # cs = [] @ sub @ post" by auto
      then show ?thesis by blast
    next
      assume "\<exists>pre post. cs = pre @ sub @ post"
      then obtain pre post where "c # cs = (c # pre) @ sub @ post" by auto
      then show ?thesis by blast
    qed
  qed
  then show ?case using Cons.IH p by simp
qed

lemma name_contains_date_iff: "includes' (toLowerCase key) ''date'' \<longleftrightarrow> name_contains_date key"
proof
  assume "includes' (toLowerCase key) ''date''"
  then obtain pre post where e: "map lower_char key = pre @ ''date'' @ post"
    unfolding includes_iff toLowerCase_def by blast
  from map_eq_append_conv[THEN iffD1, OF e]
  obtain kpre krest where k1: "key = kpre @ krest"
      and k3: "''date'' @ post = map lower_char krest"
    by (elim exE conjE)
  from k3 obtain d a t e kpost where m: "krest = [d, a, t, e] @ kpost"
    and l: "lower_char d = CHR ''d''" "lower_char a = CHR ''a''"
           "lower_char t = CHR ''t''" "lower_char e = CHR ''e''"
    by (auto simp: Cons_eq_map_conv)
  have "key = kpre @ [d, a, t, e] @ kpost" using k1 m by simp
  moreover have "d \<in> {CHR ''d'', CHR ''D''}" "a \<in> {CHR ''a'', CHR ''A''}"
    "t \<in> {CHR ''t'', CHR ''T''}" "e \<in> {CHR ''e'', CHR ''E''}"
    using l by (simp_all only: lower_d lower_a lower_t lower_e)
  ultimately show "name_contains_date key"
    unfolding name_contains_date_def by (intro exI conjI)
next
  assume "name_contains_date key"
  then obtain pre post d a t e where k: "key = pre @ [d, a, t, e] @ post"
     and l: "d \<in> {CHR ''d'', CHR ''D''}" "a \<in> {CHR ''a'', CHR ''A''}"
            "t \<in> {CHR ''t'', CHR ''T''}" "e \<in> {CHR ''e'', CHR ''E''}"
    unfolding name_contains_date_def by blast
  have "lower_char d = CHR ''d''" "lower_char a = CHR ''a''"
       "lower_char t = CHR ''t''" "lower_char e = CHR ''e''"
    using l by (simp_all only: lower_d lower_a lower_t lower_e)
  then have "map lower_char key = map lower_char pre @ ''date'' @ map lower_char post"
    unfolding k by simp
  then show "includes' (toLowerCase key) ''date''"
    unfolding includes_iff toLowerCase_def by blast
qed

lemma len4: "length y = 4 \<longleftrightarrow> (\<exists>a b c d. y = [a, b, c, d])"
  by (auto simp: length_Suc_conv eval_nat_numeral)
lemma len2: "length y = 2 \<longleftrightarrow> (\<exists>a b. y = [a, b])"
  by (auto simp: length_Suc_conv eval_nat_numeral)

lemma len10:
  "length y = 10 \<Longrightarrow> \<exists>a0 a1 a2 a3 a4 a5 a6 a7 a8 a9. y = [a0, a1, a2, a3, a4, a5, a6, a7, a8, a9]"
  by (simp add: length_Suc_conv eval_nat_numeral) blast

lemma ten_split:
  assumes "10 \<le> length s"
  shows "s = [s!0, s!1, s!2, s!3] @ [s!4] @ [s!5, s!6] @ [s!7] @ [s!8, s!9] @ drop 10 s"
proof -
  have "length (take 10 s) = 10" using assms by simp
  from len10[OF this] obtain a0 a1 a2 a3 a4 a5 a6 a7 a8 a9
    where t: "take 10 s = [a0, a1, a2, a3, a4, a5, a6, a7, a8, a9]" by blast
  have "s = take 10 s @ drop 10 s" by simp
  then obtain rest where s: "s = [a0, a1, a2, a3, a4, a5, a6, a7, a8, a9] @ rest"
    unfolding t by blast
  show ?thesis unfolding s by simp
qed

lemma iso_date_prefix_iff: "matches_iso_prefix s \<longleftrightarrow> iso_date_prefix s"
proof
  assume m: "matches_iso_prefix s"
  then have l: "10 \<le> length s" by (simp add: matches_iso_prefix_def)
  have "[s!0, s!1, s!2, s!3] @ ''-'' @ [s!5, s!6] @ ''-'' @ [s!8, s!9] @ drop 10 s
        = [s!0, s!1, s!2, s!3] @ [s!4] @ [s!5, s!6] @ [s!7] @ [s!8, s!9] @ drop 10 s"
    using m by (simp add: matches_iso_prefix_def)
  also have "\<dots> = s" using ten_split[OF l] by (rule sym)
  finally have "s = [s!0, s!1, s!2, s!3] @ ''-'' @ [s!5, s!6] @ ''-'' @ [s!8, s!9] @ drop 10 s"
    by (rule sym)
  moreover have "\<forall>c\<in>set ([s!0, s!1, s!2, s!3] @ [s!5, s!6] @ [s!8, s!9]). c \<in> set ''0123456789''"
    using m by (simp add: matches_iso_prefix_def is_digit_def)
  ultimately show "iso_date_prefix s"
    unfolding iso_date_prefix_def
    by (intro exI[of _ "[s!0, s!1, s!2, s!3]"] exI[of _ "[s!5, s!6]"] exI[of _ "[s!8, s!9]"]
          exI[of _ "drop 10 s"] conjI) simp_all
next
  assume "iso_date_prefix s"
  then obtain y m d rest where s: "s = y @ ''-'' @ m @ ''-'' @ d @ rest"
    and l: "length y = 4" "length m = 2" "length d = 2"
    and dg: "\<forall>c\<in>set (y @ m @ d). c \<in> set ''0123456789''"
    unfolding iso_date_prefix_def by blast
  from l obtain y0 y1 y2 y3 m0 m1 d0 d1 where e: "y = [y0, y1, y2, y3]" "m = [m0, m1]" "d = [d0, d1]"
    unfolding len4 len2 by blast
  show "matches_iso_prefix s"
    using dg unfolding s e by (simp add: matches_iso_prefix_def is_digit_def)
qed


lemma foldl_analyzeKey:
  "foldl (analyzeKey env data) acc keys =
     acc @ map (\<lambda>k. \<lparr>name = k, type = detectType env k (column data k),
                        values' = take 50 (uniq (column data k))\<rparr>)
             (filter (\<lambda>k. column data k \<noteq> []) keys)"
  by (induction keys arbitrary: acc) (simp_all add: analyzeKey_def Let_def)

lemma availableFields_analyze:
  "availableFields (analyzeDataStructure env (item # rest) st) =
     map (\<lambda>k. \<lparr>name = k, type = detectType env k (column (item # rest) k),
                  values' = take 50 (uniq (column (item # rest) k))\<rparr>)
       (filter (\<lambda>k. column (item # rest) k \<noteq> []) (Object_keys item))"
  by (simp add: analyzeDataStructure_def Let_def foldl_analyzeKey)

lemma column_nonempty_iff:
  "column data k \<noteq> [] \<longleftrightarrow>
     (\<exists>item\<in>set data. getProp item k \<noteq> JNull \<and> getProp item k \<noteq> JUndefined)"
  by (auto simp: column_def filter_empty_conv)

lemma index_entries_Nil: "index_entries [] = []"
  by (simp add: index_entries_def)

lemma index_entries_Cons:
  "index_entries (e # obj) =
     (case array_index (fst e) of None \<Rightarrow> [] | Some n \<Rightarrow> [(n, e)]) @ index_entries obj"
  by (cases e) (simp add: index_entries_def split: option.splits)

lemma set_index_entries:
  "snd ` set (index_entries obj) = {e \<in> set obj. array_index (fst e) \<noteq> None}"
  by (induction obj) (auto simp: index_entries_Nil index_entries_Cons split: option.splits)

lemma set_Object_entries: "set (Object_entries obj) = set obj"
  using set_index_entries[of obj] by (auto simp: Object_entries_def)

lemma set_Object_keys: "set (Object_keys obj) = fst ` set obj"
  by (simp add: Object_keys_def set_Object_entries)

lemma detectType_spec: "detectType env key vals = spec_kind env key vals"
proof -
  have "is_number v \<longleftrightarrow> (\<exists>r. v = JNum r)" for v
    by (cases v) (simp_all add: is_number_def)
  then have n: "list_all is_number vals \<longleftrightarrow> (\<forall>v\<in>set vals. \<exists>r. v = JNum r)"
    by (simp add: list_all_iff)
  have "is_boolean v \<longleftrightarrow> (\<exists>b. v = JBool b)" for v
    by (cases v) (simp_all add: is_boolean_def)
  then have b: "list_all is_boolean vals \<longleftrightarrow> (\<forall>v\<in>set vals. \<exists>b. v = JBool b)"
    by (simp add: list_all_iff)
  have d: "(case vals of [] \<Rightarrow> False | v # _ \<Rightarrow> isValidDate env v)
        \<longleftrightarrow> (\<exists>s rest. vals = JStr s # rest \<and> iso_date_prefix s \<and> dateParse env s \<noteq> None)"
    by (auto simp: isValidDate_def iso_date_prefix_iff split: list.splits jsval.splits)
  show ?thesis
    unfolding detectType_def spec_kind_def n b d name_contains_date_iff ..
qed

text \<open>
  What field inference does, in terms of the values the code reads with \<^verbatim>\<open>item[key]\<close>:
  the descriptors are, in order, for the listed keys of the first record that read as
  something other than \<^verbatim>\<open>null\<close> and \<^verbatim>\<open>undefined\<close> in some record, each with the kind the
  ordered tests give on the values read.
\<close>

lemma field_inference_as_read:
  assumes "data \<noteq> []"
  shows "map name (availableFields (analyzeDataStructure env data st))
           = filter (\<lambda>k. \<exists>item\<in>set data. getProp item k \<noteq> JNull \<and> getProp item k \<noteq> JUndefined)
               (Object_keys (hd data))
         \<and> (\<forall>f\<in>set (availableFields (analyzeDataStructure env data st)).
               type f = spec_kind env (name f) (column data (name f)))
         \<and> (\<forall>k. k \<notin> fst ` set (hd data)
               \<longrightarrow> k \<notin> name ` set (availableFields (analyzeDataStructure env data st)))"
proof -
  obtain item rest where d: "data = item # rest" using assms by (cases data) auto
  let ?F = "availableFields (analyzeDataStructure env data st)"
  have names: "map name ?F = filter (\<lambda>k. column data k \<noteq> []) (Object_keys (hd data))"
    unfolding d availableFields_analyze by (simp add: comp_def)
  have kinds: "\<forall>f\<in>set ?F. type f = spec_kind env (name f) (column data (name f))"
    unfolding d availableFields_analyze by (auto simp: detectType_spec)
  have "set (map name ?F) \<subseteq> fst ` set (hd data)"
    unfolding names using set_Object_keys[of "hd data"] by auto
  then have absent: "\<forall>k. k \<notin> fst ` set (hd data) \<longrightarrow> k \<notin> name ` set ?F"
    by auto
  show ?thesis using names kinds absent by (simp add: column_nonempty_iff)
qed

lemma getProp_own: "key \<notin> set ObjectPrototypeKeys \<Longrightarrow> getProp item key = ownProp item key"
  by (simp add: getProp_def ownProp_def split: option.splits)

lemma column_own:
  "key \<notin> set ObjectPrototypeKeys \<Longrightarrow> column data key = own_column data key"
  by (simp add: column_def own_column_def getProp_own)

text \<open>
  When no key of the first record is the name of a member of \<^verbatim>\<open>Object.prototype\<close>, the
  values read are the values the records hold, and field inference is as the
  specification words it: a descriptor for exactly the keys of the first record for which
  some record holds a value other than \<^verbatim>\<open>null\<close> and \<^verbatim>\<open>undefined\<close>, in the order
  \<^verbatim>\<open>Object.keys\<close> lists them, each with the kind the ordered tests give on the values held.
\<close>

lemma field_inference_own_fields:
  assumes "data \<noteq> []"
    and "\<forall>k\<in>fst ` set (hd data). k \<notin> set ObjectPrototypeKeys"
  shows "map name (availableFields (analyzeDataStructure env data st))
           = filter (\<lambda>k. \<exists>item\<in>set data. ownProp item k \<noteq> JNull \<and> ownProp item k \<noteq> JUndefined)
               (Object_keys (hd data))
         \<and> set (map name (availableFields (analyzeDataStructure env data st)))
           = {k \<in> fst ` set (hd data).
                \<exists>item\<in>set data. ownProp item k \<noteq> JNull \<and> ownProp item k \<noteq> JUndefined}
         \<and> (\<forall>f\<in>set (availableFields (analyzeDataStructure env data st)).
               type f = spec_kind env (name f) (own_column data (name f)))"
proof -
  let ?F = "availableFields (analyzeDataStructure env data st)"
  have keys: "set (Object_keys (hd data)) = fst ` set (hd data)" by (rule set_Object_keys)
  have own: "getProp item k = ownProp item k" if "k \<in> set (Object_keys (hd data))" for item k
    using that assms(2) unfolding keys by (auto simp: getProp_own)
  have col: "column data k = own_column data k" if "k \<in> set (Object_keys (hd data))" for k
    using that assms(2) unfolding keys by (auto simp: column_own)
  have names: "map name ?F
      = filter (\<lambda>k. \<exists>item\<in>set data. ownProp item k \<noteq> JNull \<and> ownProp item k \<noteq> JUndefined)
          (Object_keys (hd data))"
    using field_inference_as_read[OF assms(1), of env st]
    by (simp add: own cong: filter_cong)
  have "set (map name ?F)
      = {k \<in> fst ` set (hd data).
           \<exists>item\<in>set data. ownProp item k \<noteq> JNull \<and> ownProp item k \<noteq> JUndefined}"
    unfolding names using keys by auto
  moreover have "\<forall>f\<in>set ?F. type f = spec_kind env (name f) (own_column data (name f))"
  proof
    fix f assume f: "f \<in> set ?F"
    then have "name f \<in> set (map name ?F)" by simp
    then have "name f \<in> set (Object_keys (hd data))" unfolding names by simp
    then show "type f = spec_kind env (name f) (own_column data (name f))"
      using field_inference_as_read[OF assms(1), of env st] f col by simp
  qed
  ultimately show ?thesis using names by blast
qed

text \<open>
  Claim C1. The claim speaks of the values the records hold. The code reads
  \<^verbatim>\<open>item[key]\<close>, which for a record without the key returns the member of
  \<^verbatim>\<open>Object.prototype\<close> of that name when there is one. On the records
  \<^verbatim>\<open>[{"constructor": 1}, {}]\<close> the only value held for the field is the number 1, yet the
  code samples the inherited function with it and gives the field the kind string; on
  \<^verbatim>\<open>[{"toString": null}, {}]\<close> no record holds a value for the field, yet the code
  produces a descriptor for it.
\<close>

theorem field_inference_inherited_member:
  "map (\<lambda>f. (name f, type f, values' f))
       (availableFields (analyzeDataStructure env [[(''constructor'', JNum 1)], []] st))
     = [(''constructor'', TString, [JNum 1, JInherited ''constructor''])]
   \<and> own_column [[(''constructor'', JNum 1)], []] ''constructor'' = [JNum 1]
   \<and> map name (availableFields (analyzeDataStructure env [[(''toString'', JNull)], []] st))
     = [''toString'']
   \<and> own_column [[(''toString'', JNull)], []] ''toString'' = []"
proof -
  have k1: "Object_keys [(''constructor'', JNum 1)] = [''constructor'']"
    by (simp add: Object_keys_def Object_entries_def index_entries_def array_index_def is_digit_def)
  have k2: "Object_keys [(''toString'', JNull)] = [''toString'']"
    by (simp add: Object_keys_def Object_entries_def index_entries_def array_index_def is_digit_def)
  have c1: "column [[(''constructor'', JNum 1)], []] ''constructor''
              = [JNum 1, JInherited ''constructor'']"
    by (simp add: column_def getProp_def ObjectPrototypeKeys_def)
  have c2: "column [[(''toString'', JNull)], []] ''toString'' = [JInherited ''toString'']"
    by (simp add: column_def getProp_def ObjectPrototypeKeys_def)
  have t1: "detectType env ''constructor'' [JNum 1, JInherited ''constructor''] = TString"
    by (simp add: detectType_def is_number_def is_boolean_def toLowerCase_def lower_char_def
        isValidDate_def)
  have u1: "uniq [JNum 1, JInherited ''constructor''] = [JNum 1, JInherited ''constructor'']"
    by (simp add: uniq_def)
  show ?thesis
    unfolding availableFields_analyze k1 k2
    by (simp add: c1 c2 t1 u1 own_column_def ownProp_def)
qed

subsection \<open>Running the model on the sample inputs\<close>

lemmas obj_eval = Object_keys_def Object_entries_def index_entries_def array_index_def
  is_digit_def digits_value_def

lemmas cal_eval = YearFromTime_def YearFromDay_def Day_def msPerDay_def DayFromYear_def
  MonthFromTime_def DayWithinYear_def MonthStart_def DaysInYear_def DateFromTime_def
  MakeDay_def MakeDate_def TimeWithinDay_def LocalTime_def UTC_def

lemmas prop_eval = getProp_def ObjectPrototypeKeys_def

lemmas host_eval = sampleHost_def parseIsoDate_def parseMonthDay_def matches_iso_prefix_def
  monthShort_def first_index_def

lemma parse_2024_01_15: "dateParse sampleHost ''2024-01-15'' = Some 1705276800000"
  by (simp add: host_eval cal_eval obj_eval Let_def cong: let_weak_cong)



lemma sample_keys:
  "Object_keys (hd sampleOrders) = [''id'', ''orderDate'', ''when'', ''cat'', ''ok'', ''note'']"
  by (simp add: sampleOrders_def obj_eval)

lemma sample_fields: "availableFields (analyzeDataStructure sampleHost sampleOrders initialState) =
   [\<lparr>name = ''id'', type = TNumber, values' = [JNum 1, JNum 2]\<rparr>,
    \<lparr>name = ''orderDate'', type = TDate, values' = [JStr ''soon'']\<rparr>,
    \<lparr>name = ''when'', type = TDate, values' = [JStr ''2024-01-15'', JStr ''2024-02-03'']\<rparr>,
    \<lparr>name = ''cat'', type = TString, values' = [JStr ''A'', JStr ''B'']\<rparr>,
    \<lparr>name = ''ok'', type = TBoolean, values' = [JBool True, JBool False]\<rparr>]"
  using sample_keys
  by (simp add: availableFields_analyze sampleOrders_def column_def getProp_def
      ObjectPrototypeKeys_def detectType_def
      is_number_def is_boolean_def toLowerCase_def lower_char_def isValidDate_def
      parse_2024_01_15 uniq_def matches_iso_prefix_def is_digit_def cong: let_weak_cong)

subsection \<open>Sample values\<close>

lemma first_index_less: "a \<in> set xs \<Longrightarrow> first_index xs a < length xs"
  unfolding first_index_def by (induction xs) auto

lemma first_index_append_old: "a \<in> set xs \<Longrightarrow> first_index (xs @ ys) a = first_index xs a"
  by (simp add: first_index_def takeWhile_append1)

lemma first_index_append_new: "a \<notin> set xs \<Longrightarrow> first_index (xs @ [a]) a = length xs"
proof -
  assume n: "a \<notin> set xs"
  have "takeWhile (\<lambda>y. y \<noteq> a) (xs @ [a]) = xs @ takeWhile (\<lambda>y. y \<noteq> a) [a]"
    by (rule takeWhile_append2) (use n in auto)
  then show ?thesis by (simp add: first_index_def)
qed

lemma uniq_foldl_inv:
  assumes "distinct seen" "set seen = set pre"
    and "sorted_wrt (\<lambda>a b. first_index pre a < first_index pre b) seen"
  shows "distinct (foldl (\<lambda>seen x. if x \<in> set seen then seen else seen @ [x]) seen xs)
       \<and> set (foldl (\<lambda>seen x. if x \<in> set seen then seen else seen @ [x]) seen xs) = set (pre @ xs)
       \<and> sorted_wrt (\<lambda>a b. first_index (pre @ xs) a < first_index (pre @ xs) b)
            (foldl (\<lambda>seen x. if x \<in> set seen then seen else seen @ [x]) seen xs)"
  using assms
proof (induction xs arbitrary: seen pre)
  case Nil
  then show ?case by simp
next
  case (Cons x xs)
  have old: "sorted_wrt (\<lambda>a b. first_index (pre @ [x]) a < first_index (pre @ [x]) b) seen"
    using Cons.prems(3)
    by (rule sorted_wrt_mono_rel[rotated])
       (use Cons.prems(2) in \<open>simp add: first_index_append_old\<close>)
  show ?case
  proof (cases "x \<in> set seen")
    case True
    have "set seen = set (pre @ [x])" using True Cons.prems(2) by auto
    from Cons.IH[OF Cons.prems(1) this old] True show ?thesis by simp
  next
    case False
    then have nx: "x \<notin> set pre" using Cons.prems(2) by simp
    have "\<forall>a\<in>set seen. first_index (pre @ [x]) a < first_index (pre @ [x]) x"
      using Cons.prems(2) nx
      by (simp add: first_index_append_old first_index_append_new first_index_less)
    then have s: "sorted_wrt (\<lambda>a b. first_index (pre @ [x]) a < first_index (pre @ [x]) b)
                    (seen @ [x])"
      using old by (simp add: sorted_wrt_append)
    have d: "distinct (seen @ [x])" using False Cons.prems(1) by simp
    have "set (seen @ [x]) = set (pre @ [x])" using Cons.prems(2) by auto
    from Cons.IH[OF d this s] False show ?thesis by simp
  qed
qed

lemma uniq_props:
  "distinct (uniq xs) \<and> set (uniq xs) = set xs
   \<and> sorted_wrt (\<lambda>a b. first_index xs a < first_index xs b) (uniq xs)"
  using uniq_foldl_inv[of "[]" "[]" xs] by (simp add: uniq_def)

lemma take_uniq_closed:
  assumes "a \<in> set xs" "b \<in> set (take n (uniq xs))" "first_index xs a < first_index xs b"
  shows "a \<in> set (take n (uniq xs))"
proof (rule ccontr)
  assume na: "a \<notin> set (take n (uniq xs))"
  have "set (uniq xs) = set (take n (uniq xs)) \<union> set (drop n (uniq xs))"
    using set_append[of "take n (uniq xs)" "drop n (uniq xs)"]
    by (simp only: append_take_drop_id)
  then have ad: "a \<in> set (drop n (uniq xs))" using na assms(1) uniq_props[of xs] by auto
  have "sorted_wrt (\<lambda>a b. first_index xs a < first_index xs b) (take n (uniq xs) @ drop n (uniq xs))"
    using uniq_props[of xs] by (simp only: append_take_drop_id)
  then have "first_index xs b < first_index xs a"
    using assms(2) ad unfolding sorted_wrt_append by blast
  then show False using assms(3) by simp
qed

lemma take_uniq_all: "length (take n (uniq xs)) < n \<Longrightarrow> set (take n (uniq xs)) = set xs"
  using uniq_props[of xs] by (cases "n \<le> length (uniq xs)") simp_all

lemma field_of_analyze:
  assumes "f \<in> set (availableFields (analyzeDataStructure env data st))"
  shows "values' f = take 50 (uniq (column data (name f)))"
proof (cases data)
  case Nil
  then show ?thesis using assms by (simp add: analyzeDataStructure_def)
next
  case (Cons item rest)
  then show ?thesis using assms unfolding Cons availableFields_analyze by auto
qed

text \<open>
  Claim C5. The sample list of every inferred descriptor has at most 50 entries, all
  distinct, each a non-null value of the field, listed in the order of their first
  occurrence across the records. The sample is the first 50 distinct values: a value
  first seen before a sampled one is sampled too, and a sample shorter than 50 holds
  every value.
\<close>

theorem samples_bounded_distinct_first_seen:
  "\<forall>f\<in>set (availableFields (analyzeDataStructure env data st)).
     length (values' f) \<le> 50
     \<and> distinct (values' f)
     \<and> set (values' f) \<subseteq> set (column data (name f))
     \<and> sorted_wrt (\<lambda>a b. first_index (column data (name f)) a
                         < first_index (column data (name f)) b) (values' f)
     \<and> (\<forall>a\<in>set (column data (name f)). \<forall>b\<in>set (values' f).
           first_index (column data (name f)) a < first_index (column data (name f)) b
           \<longrightarrow> a \<in> set (values' f))
     \<and> (length (values' f) < 50 \<longrightarrow> set (values' f) = set (column data (name f)))"
proof
  fix f
  assume "f \<in> set (availableFields (analyzeDataStructure env data st))"
  then have v: "values' f = take 50 (uniq (column data (name f)))"
    by (rule field_of_analyze)
  let ?vals = "column data (name f)"
  have 1: "length (values' f) \<le> 50" unfolding v by simp
  have 2: "distinct (values' f)" unfolding v using uniq_props[of ?vals] by simp
  have 3: "set (values' f) \<subseteq> set ?vals"
    unfolding v using uniq_props[of ?vals] set_take_subset[of 50 "uniq ?vals"] by auto
  have 4: "sorted_wrt (\<lambda>a b. first_index ?vals a < first_index ?vals b) (values' f)"
    unfolding v using uniq_props[of ?vals] by simp
  have 5: "\<forall>a\<in>set ?vals. \<forall>b\<in>set (values' f).
           first_index ?vals a < first_index ?vals b \<longrightarrow> a \<in> set (values' f)"
    unfolding v using take_uniq_closed[of _ ?vals _ 50] by blast
  have 6: "length (values' f) < 50 \<longrightarrow> set (values' f) = set ?vals"
    unfolding v using take_uniq_all[of 50 ?vals] by blast
  show "length (values' f) \<le> 50
     \<and> distinct (values' f)
     \<and> set (values' f) \<subseteq> set ?vals
     \<and> sorted_wrt (\<lambda>a b. first_index ?vals a < first_index ?vals b) (values' f)
     \<and> (\<forall>a\<in>set ?vals. \<forall>b\<in>set (values' f).
           first_index ?vals a < first_index ?vals b \<longrightarrow> a \<in> set (values' f))
     \<and> (length (values' f) < 50 \<longrightarrow> set (values' f) = set ?vals)"
    using 1 2 3 4 5 6 by blast
qed

theorem samples_bounded_distinct_first_seen_witness:
  "length (values' (availableFields (analyzeDataStructure sampleHost sampleOrders initialState) ! 3)) \<le> 50
   \<and> distinct (values' (availableFields (analyzeDataStructure sampleHost sampleOrders initialState) ! 3))
   \<and> values' (availableFields (analyzeDataStructure sampleHost sampleOrders initialState) ! 3)
       = [JStr ''A'', JStr ''B'']
   \<and> column sampleOrders ''cat'' = [JStr ''A'', JStr ''B'', JStr ''A'']"
proof -
  let ?F = "availableFields (analyzeDataStructure sampleHost sampleOrders initialState)"
  have "?F ! 3 \<in> set ?F" by (simp add: sample_fields)
  from samples_bounded_distinct_first_seen[rule_format, OF this]
  have "length (values' (?F ! 3)) \<le> 50 \<and> distinct (values' (?F ! 3))" by blast
  moreover have "values' (?F ! 3) = [JStr ''A'', JStr ''B'']" by (simp add: sample_fields)
  moreover have "column sampleOrders ''cat'' = [JStr ''A'', JStr ''B'', JStr ''A'']"
    by (simp add: column_def sampleOrders_def prop_eval)
  ultimately show ?thesis by blast
qed

subsection \<open>Selection defaults and the empty array\<close>

lemma stringFields_range:
  "stringFields flds =
     filter (\<lambda>f. type f = TString \<and> 2 \<le> length (values' f) \<and> length (values' f) \<le> 19) flds"
  unfolding stringFields_def by (rule filter_cong) auto

text \<open>
  Re-running field inference alone resets the selection only when there is a record: on
  an empty array \<^verbatim>\<open>analyzeDataStructure\<close> returns before touching it.
\<close>

lemma analyze_nonempty_resets:
  assumes "data \<noteq> []"
  shows "selectedMetrics (analyzeDataStructure env data st)
           = (case numericFields (availableFields (analyzeDataStructure env data st)) of
                [] \<Rightarrow> [] | f # _ \<Rightarrow> [name f])
         \<and> selectedDimensions (analyzeDataStructure env data st)
           = (case stringFields (availableFields (analyzeDataStructure env data st)) of
                [] \<Rightarrow> [] | f # _ \<Rightarrow> [name f])
         \<and> selectedDateRange (analyzeDataStructure env data st) = []"
proof -
  obtain item rest where d: "data = item # rest" using assms by (cases data) auto
  show ?thesis unfolding d by (simp add: analyzeDataStructure_def Let_def)
qed

lemma analyze_empty_keeps:
  "selectedMetrics (analyzeDataStructure env [] st) = selectedMetrics st
   \<and> selectedDimensions (analyzeDataStructure env [] st) = selectedDimensions st
   \<and> selectedDateRange (analyzeDataStructure env [] st) = selectedDateRange st"
  by (simp add: analyzeDataStructure_def)

text \<open>
  Claim C6. Switching the data set (\<^verbatim>\<open>handleDataSetChange\<close>, then field inference on the
  records of the new data set) leaves as metric selection exactly the first inferred
  number field, or nothing when there is none; as dimension selection exactly the first
  inferred string field with 2 to 19 sample values, or nothing when there is none; and no
  date-range token.
\<close>

theorem dataset_switch_resets_selection:
  "selectedMetrics (analyzeDataStructure env data (handleDataSetChange dataSetId st))
     = (case filter (\<lambda>f. type f = TNumber)
               (availableFields (analyzeDataStructure env data (handleDataSetChange dataSetId st))) of
          [] \<Rightarrow> [] | f # _ \<Rightarrow> [name f])
   \<and> selectedDimensions (analyzeDataStructure env data (handleDataSetChange dataSetId st))
     = (case filter (\<lambda>f. type f = TString \<and> 2 \<le> length (values' f) \<and> length (values' f) \<le> 19)
               (availableFields (analyzeDataStructure env data (handleDataSetChange dataSetId st))) of
          [] \<Rightarrow> [] | f # _ \<Rightarrow> [name f])
   \<and> selectedDateRange (analyzeDataStructure env data (handleDataSetChange dataSetId st)) = []"
proof (cases data)
  case Nil
  show ?thesis unfolding Nil
    by (simp add: analyzeDataStructure_def handleDataSetChange_def)
next
  case (Cons item rest)
  then have "data \<noteq> []" by simp
  from analyze_nonempty_resets[OF this, of env "handleDataSetChange dataSetId st"]
  show ?thesis unfolding stringFields_range numericFields_def .
qed

theorem dataset_switch_resets_selection_witness:
  "selectedMetrics (analyzeDataStructure sampleHost sampleOrders
       (handleDataSetChange ''ds2'' (initialState\<lparr>selectedMetrics := [''old''],
          selectedDimensions := [''older''], selectedDateRange := ''last-year''\<rparr>))) = [''id'']
   \<and> selectedDimensions (analyzeDataStructure sampleHost sampleOrders
       (handleDataSetChange ''ds2'' (initialState\<lparr>selectedMetrics := [''old''],
          selectedDimensions := [''older''], selectedDateRange := ''last-year''\<rparr>))) = [''cat'']
   \<and> selectedDateRange (analyzeDataStructure sampleHost sampleOrders
       (handleDataSetChange ''ds2'' (initialState\<lparr>selectedMetrics := [''old''],
          selectedDimensions := [''older''], selectedDateRange := ''last-year''\<rparr>))) = []"
proof -
  let ?st = "handleDataSetChange ''ds2'' (initialState\<lparr>selectedMetrics := [''old''],
          selectedDimensions := [''older''], selectedDateRange := ''last-year''\<rparr>)"
  have f: "availableFields (analyzeDataStructure sampleHost sampleOrders ?st)
          = availableFields (analyzeDataStructure sampleHost sampleOrders initialState)"
    by (simp add: sampleOrders_def availableFields_analyze)
  show ?thesis
    using dataset_switch_resets_selection[of sampleHost sampleOrders "''ds2''"
        "initialState\<lparr>selectedMetrics := [''old''],
          selectedDimensions := [''older''], selectedDateRange := ''last-year''\<rparr>"]
    unfolding f sample_fields by simp
qed

text \<open>
  Claim C8. On an empty record array field inference yields no descriptor, and chart
  generation yields empty line chart, pie chart, totals and categories; so does the
  filter engine run on empty raw data. Each function returns (the model functions are
  total, and on the empty array they take the guarded early-return branches).
\<close>

theorem empty_records:
  "availableFields (analyzeDataStructure env [] st) = []
   \<and> chartData (generateChartData env [] st)
       = \<lparr>lineChart = [], pieChart = [], metrics = [], categories = []\<rparr>
   \<and> filteredData (applyFilters env now start (st\<lparr>rawData := []\<rparr>)) = []
   \<and> chartData (applyFilters env now start (st\<lparr>rawData := []\<rparr>))
       = \<lparr>lineChart = [], pieChart = [], metrics = [], categories = []\<rparr>"
  by (simp add: analyzeDataStructure_def generateChartData_def newChartData_def
      applyFilters_def filterRecords_def emptyChartData_def Let_def)

section \<open>Grouping and sorting: lemmas\<close>















section \<open>Chart generation: properties\<close>














subsection \<open>The pie chart\<close>



























lemma sample_pie_state:
  "selectedMetrics (initialState\<lparr>selectedMetrics := [''amt''], selectedDimensions := [''cat'']\<rparr>)
     = ''amt'' # []
   \<and> selectedDimensions (initialState\<lparr>selectedMetrics := [''amt''], selectedDimensions := [''cat'']\<rparr>)
     = ''cat'' # []"
  by simp




subsection \<open>Falsy dimension values\<close>


lemma metric_sum_cong:
  "(\<And>item. item \<in> set data \<Longrightarrow> P item = Q item) \<Longrightarrow> metric_sum pm P data = metric_sum pm Q data"
  unfolding metric_sum_def by (simp cong: filter_cong)






subsection \<open>The time series\<close>






lemma metric_sum_filter:
  "metric_sum pm P (filter Q data) = metric_sum pm (\<lambda>item. Q item \<and> P item) data"
  by (simp add: metric_sum_def)




















lemmas line_eval = toLocaleDateString_def twoDigits_def toString_def truthy_def
  numberOrZero_def addTo_def setProp_def getNum_def compareDates_def Array_sort_def














subsection \<open>Records without a date\<close>









section \<open>The calendar\<close>

text \<open>
  \<open>YearFromDay\<close> finds the year of a day as the ECMAScript specification defines it, the
  largest \<open>y\<close> whose first day is not after the day (\<open>DayFromYear\<close> is increasing).
\<close>

lemma div_bounds:
  fixes a n :: int
  assumes "0 < n"
  shows "\<exists>q. a div n = q \<and> n * q \<le> a \<and> a < n * q + n"
proof -
  have "a = n * (a div n) + a mod n" by simp
  moreover have "0 \<le> a mod n" "a mod n < n" using assms by simp_all
  ultimately have "n * (a div n) \<le> a \<and> a < n * (a div n) + n" by linarith
  then show ?thesis by blast
qed

lemma DayFromYear_bounds:
  "\<exists>a b c. DayFromYear (1970 + x) = 365 * x + a - b + c
     \<and> 4 * a \<le> x + 1 \<and> x + 1 < 4 * a + 4
     \<and> 100 * b \<le> x + 69 \<and> x + 69 < 100 * b + 100
     \<and> 400 * c \<le> x + 369 \<and> x + 369 < 400 * c + 400"
proof -
  have p: "(0::int) < 4" "(0::int) < 100" "(0::int) < 400" by simp_all
  obtain a where a: "(x + 1) div 4 = a" "4 * a \<le> x + 1" "x + 1 < 4 * a + 4"
    using div_bounds[OF p(1), of "x + 1"] by blast
  obtain b where b: "(x + 69) div 100 = b" "100 * b \<le> x + 69" "x + 69 < 100 * b + 100"
    using div_bounds[OF p(2), of "x + 69"] by blast
  obtain c where c: "(x + 369) div 400 = c" "400 * c \<le> x + 369" "x + 369 < 400 * c + 400"
    using div_bounds[OF p(3), of "x + 369"] by blast
  have "DayFromYear (1970 + x) = 365 * x + a - b + c"
    unfolding a(1)[symmetric] b(1)[symmetric] c(1)[symmetric]
    by (simp add: DayFromYear_def add.commute)
  then show ?thesis using a b c by blast
qed

lemma DayFromYear_below:
  assumes "146097 * x \<le> 400 * d"
  shows "DayFromYear (1970 + (x - 1)) \<le> d"
proof -
  obtain a b c where e: "DayFromYear (1970 + (x - 1)) = 365 * (x - 1) + a - b + c"
    and a: "4 * a \<le> x - 1 + 1" and b: "x - 1 + 69 < 100 * b + 100" and c: "400 * c \<le> x - 1 + 369"
    using DayFromYear_bounds[of "x - 1"] by blast
  have 1: "400 * a \<le> 100 * x" using a by simp
  have 2: "4 * x < 400 * b + 128" using b by simp
  have "400 * (365 * (x - 1) + a - b + c) = 146000 * x - 146000 + 400 * a - 400 * b + 400 * c"
    by (simp add: algebra_simps)
  also have "\<dots> \<le> 146000 * x - 146000 + 100 * x - (4 * x - 128) + (x + 368)"
    using 1 2 c by simp
  also have "\<dots> = 146097 * x - 145504" by simp
  also have "\<dots> \<le> 400 * d" using assms by simp
  finally show ?thesis unfolding e by simp
qed

lemma DayFromYear_above:
  assumes "400 * d < 146097 * x + 146097"
  shows "d < DayFromYear (1970 + (x + 2))"
proof -
  obtain a b c where e: "DayFromYear (1970 + (x + 2)) = 365 * (x + 2) + a - b + c"
    and a: "x + 2 + 1 < 4 * a + 4" and b: "100 * b \<le> x + 2 + 69" and c: "x + 2 + 369 < 400 * c + 400"
    using DayFromYear_bounds[of "x + 2"] by blast
  have 1: "100 * x < 400 * a + 100" using a by simp
  have 2: "400 * b \<le> 4 * x + 284" using b by simp
  have 3: "x < 400 * c + 29" using c by simp
  have "400 * d < 146097 * x + 146097" by (rule assms)
  also have "\<dots> \<le> 146000 * x + 292000 + (100 * x - 100) - (4 * x + 284) + (x - 29)" by simp
  also have "\<dots> \<le> 146000 * x + 292000 + 400 * a - 400 * b + 400 * c"
    using 1 2 3 by simp
  also have "\<dots> = 400 * (365 * (x + 2) + a - b + c)" by (simp add: algebra_simps)
  finally show ?thesis unfolding e by simp
qed

lemma YearFromDay_correct:
  "DayFromYear (YearFromDay d) \<le> d \<and> d < DayFromYear (YearFromDay d + 1)"
proof -
  have p: "(0::int) < 146097" by simp
  obtain x where x: "(400 * d) div 146097 = x" "146097 * x \<le> 400 * d"
      "400 * d < 146097 * x + 146097"
    using div_bounds[OF p, of "400 * d"] by blast
  define y where "y = 1970 + x"
  have lo: "DayFromYear (y - 1) \<le> d"
    using DayFromYear_below[OF x(2)] by (simp add: y_def)
  have hi: "d < DayFromYear (y + 1 + 1)"
    using DayFromYear_above[OF x(3)] by (simp add: y_def add.assoc)
  have yd: "YearFromDay d = (if d < DayFromYear y then y - 1
                             else if DayFromYear (y + 1) \<le> d then y + 1 else y)"
    by (simp add: YearFromDay_def y_def x(1) Let_def)
  show ?thesis
  proof (cases "d < DayFromYear y")
    case True
    then show ?thesis using lo yd by simp
  next
    case False
    show ?thesis
    proof (cases "DayFromYear (y + 1) \<le> d")
      case True
      then show ?thesis using False hi yd by simp
    next
      case f2: False
      then show ?thesis using False yd by simp
    qed
  qed
qed


section \<open>The date-range filter\<close>































end
